theory Spec2Isabelle
  imports Main "HOL-Library.Word"
begin

section \<open>The node identifier allocator of plugins/contiv/node\_id\_allocator.go\<close>

text \<open>
  The allocator hands every node of a cluster a small unique number. The numbers live in
  an etcd store, one key \<open>allocatedIDs/<id>\<close> per number, and a new number is taken with
  a transaction that writes the key only when it is absent.

  Conventions of the embedding.
  \<^item> Go's \<open>int\<close> is 64 bits wide on the platforms the agent is built for. Values of type
    \<open>int\<close> are HOL integers; the one place where the width shows, the range check of
    \<open>strconv.Atoi\<close>, is written out. The counter of \<open>findFirstAvailableIndex\<close> never
    exceeds the length of its slice plus one, so its increment cannot wrap.
  \<^item> \<open>uint32\<close> is \<open>32 word\<close>; the conversion \<open>uint32(n)\<close> of an \<open>int\<close> truncates and is
    \<open>word_of_int\<close>.
  \<^item> A Go function that returns \<open>(T, error)\<close> returns a pair \<open>T \<times> error option\<close>, where
    \<open>None\<close> is \<open>nil\<close>.
\<close>

subsection \<open>Errors\<close>

datatype error =
    errInvalidKey
  | errUnableToAllocateID
  | errNoIDallocated
  | ErrSyntax
  | ErrRange
  | StoreError string

text \<open>
  The first three are the package's own error values. \<open>ErrSyntax\<close> and \<open>ErrRange\<close> are
  the two failures of \<open>strconv.Atoi\<close>; \<open>StoreError\<close> stands for whatever error the
  store client or the decoding of a stored value reports.
\<close>

subsection \<open>The parts of Go's standard library that the key codec uses\<close>

definition HasPrefix :: "string \<Rightarrow> string \<Rightarrow> bool" where
  "HasPrefix s pre = (length pre \<le> length s \<and> take (length pre) s = pre)"

text \<open>\<open>strings.Replace(s, old, new, 1)\<close>: the leftmost occurrence of \<open>old\<close> is replaced.\<close>

fun Replace1 :: "string \<Rightarrow> string \<Rightarrow> string \<Rightarrow> string" where
  "Replace1 [] old new = (if old = [] then new else [])"
| "Replace1 (c # s) old new =
     (if HasPrefix (c # s) old then new @ drop (length old) (c # s)
      else c # Replace1 s old new)"

definition isDigit :: "char \<Rightarrow> bool" where
  "isDigit c = (48 \<le> (of_char c :: nat) \<and> (of_char c :: nat) \<le> 57)"

definition digitVal :: "char \<Rightarrow> nat" where
  "digitVal c = of_char c - 48"

definition digitChar :: "nat \<Rightarrow> char" where
  "digitChar d = ''0123456789'' ! d"

definition maxUint64 :: nat where
  "maxUint64 = 2 ^ 64 - 1"

text \<open>
  The digit loop of \<open>strconv.ParseUint(s, 10, 64)\<close>. The accumulator is a \<open>uint64\<close>; the
  loop stops with \<open>ErrRange\<close> as soon as the next digit would not fit.
\<close>

fun parseUintLoop :: "string \<Rightarrow> nat \<Rightarrow> nat \<times> error option" where
  "parseUintLoop [] n = (n, None)"
| "parseUintLoop (c # cs) n =
     (if \<not> isDigit c then (0, Some ErrSyntax)
      else if n \<ge> maxUint64 div 10 + 1 then (maxUint64, Some ErrRange)
      else let n10 = n * 10; n1 = (n10 + digitVal c) mod 2 ^ 64
           in if n1 < n10 then (maxUint64, Some ErrRange)
              else parseUintLoop cs n1)"

definition ParseUint :: "string \<Rightarrow> nat \<times> error option" where
  "ParseUint s = (if s = [] then (0, Some ErrSyntax) else parseUintLoop s 0)"

text \<open>
  \<open>strconv.Atoi(s)\<close>, that is \<open>ParseInt(s, 10, 0)\<close> with a 64-bit \<open>int\<close>: an optional
  sign, then \<open>ParseUint\<close>, then the check against the range of \<open>int\<close>.
\<close>

definition Atoi :: "string \<Rightarrow> int \<times> error option" where
  "Atoi s =
     (if s = [] then (0, Some ErrSyntax)
      else
        let neg = (hd s = CHR ''-'');
            s1 = (if hd s = CHR ''+'' \<or> hd s = CHR ''-'' then tl s else s);
            (un, err) = ParseUint s1
        in if err = Some ErrSyntax then (0, err)
           else if \<not> neg \<and> un \<ge> 2 ^ 63 then (2 ^ 63 - 1, Some ErrRange)
           else if neg \<and> un > 2 ^ 63 then (- (2 ^ 63), Some ErrRange)
           else (if neg then - int un else int un, None))"

text \<open>\<open>strconv.FormatUint(n, 10)\<close>: the decimal digits of \<open>n\<close>, most significant first.\<close>

fun FormatUint :: "nat \<Rightarrow> string" where
  "FormatUint n =
     (if n < 10 then [digitChar n] else FormatUint (n div 10) @ [digitChar (n mod 10)])"

declare FormatUint.simps [simp del]

text \<open>
  \<open>strconv.Itoa\<close>, the decimal form of an \<open>int\<close>. The allocator does not call it; it is
  here to say what "the decimal form of an integer" is in statements about decoding.
\<close>

definition Itoa :: "int \<Rightarrow> string" where
  "Itoa n = (if n < 0 then CHR ''-'' # FormatUint (nat (- n)) else FormatUint (nat n))"

text \<open>\<open>sort.Ints\<close> sorts a slice of \<open>int\<close> in increasing order.\<close>

definition sort_Ints :: "int list \<Rightarrow> int list" where
  "sort_Ints ids = sort ids"

subsection \<open>Keys\<close>

definition allocatedIDsKeyPrefix :: string where
  "allocatedIDsKeyPrefix = ''allocatedIDs/''"

definition maxAttempts :: nat where
  "maxAttempts = 10"

definition extractIndexFromKey :: "string \<Rightarrow> int \<times> error option" where
  "extractIndexFromKey key =
     (if HasPrefix key allocatedIDsKeyPrefix
      then Atoi (Replace1 key allocatedIDsKeyPrefix [])
      else (0, Some errInvalidKey))"

definition createKey :: "32 word \<Rightarrow> string" where
  "createKey index = (let str = FormatUint (unat index) in allocatedIDsKeyPrefix @ str)"

subsection \<open>The first free index\<close>

text \<open>
  The loop of \<open>findFirstAvailableIndex\<close>, with the running value of \<open>res\<close>; the \<open>break\<close>
  returns it.
\<close>

fun firstAvailableFrom :: "int \<Rightarrow> int list \<Rightarrow> int" where
  "firstAvailableFrom res [] = res"
| "firstAvailableFrom res (v # ids) =
     (if res = v then firstAvailableFrom (res + 1) ids else res)"

definition findFirstAvailableIndex :: "int list \<Rightarrow> int" where
  "findFirstAvailableIndex ids = firstAvailableFrom 1 ids"

subsection \<open>Stored records and the store's operations\<close>

text \<open>
  \<open>uid.Identifier\<close> is the record kept under each key: the label of the owner and the
  number. (The message type is generated code of the repository, outside the file
  modelled here; only its two fields are used.)
\<close>

record Identifier =
  uid_Name :: string
  uid_Id :: "32 word"

text \<open>
  A stored value is a byte string. What matters about it is what decoding it gives: a
  record, or an error for bytes that are no encoding of a record. \<open>GetValue\<close> is the
  decoding done by the store's iterator.

  \<open>json.Marshal\<close> writes the name as a JSON string, and a JSON string is valid UTF-8. The
  encoder reads the name rune by rune, as \<open>utf8.DecodeRuneInString\<close> does, and for every
  byte at which no valid encoding starts it writes the replacement character U+FFFD,
  whose encoding is the three bytes EF BF BD. \<open>runeSize\<close> is the length of the valid
  encoding at the head of a string, \<open>0\<close> when there is none; \<open>jsonCoerce\<close> is the name
  that comes back when the written string is decoded. A name that is valid UTF-8 and
  the number come back as they were.
\<close>

datatype bytes = Encoded Identifier | Undecodable string

definition contByte :: "nat \<Rightarrow> bool" where
  "contByte b = (128 \<le> b \<and> b \<le> 191)"

fun runeSizeBytes :: "nat list \<Rightarrow> nat" where
  "runeSizeBytes [] = 0"
| "runeSizeBytes (b0 # bs) =
     (if b0 < 128 then 1
      else if b0 < 194 then 0
      else if b0 < 224 then
        (case bs of
           b1 # _ \<Rightarrow> if contByte b1 then 2 else 0
         | _ \<Rightarrow> 0)
      else if b0 < 240 then
        (case bs of
           b1 # b2 # _ \<Rightarrow>
             if (if b0 = 224 then 160 else 128) \<le> b1 \<and>
                b1 \<le> (if b0 = 237 then 159 else 191) \<and> contByte b2
             then 3 else 0
         | _ \<Rightarrow> 0)
      else if b0 < 245 then
        (case bs of
           b1 # b2 # b3 # _ \<Rightarrow>
             if (if b0 = 240 then 144 else 128) \<le> b1 \<and>
                b1 \<le> (if b0 = 244 then 143 else 191) \<and> contByte b2 \<and> contByte b3
             then 4 else 0
         | _ \<Rightarrow> 0)
      else 0)"

definition runeSize :: "string \<Rightarrow> nat" where
  "runeSize s = runeSizeBytes (map of_char s)"

function jsonCoerce :: "string \<Rightarrow> string" where
  "jsonCoerce [] = []"
| "jsonCoerce (c # cs) =
     (if runeSize (c # cs) = 0
      then [CHR 0xEF, CHR 0xBF, CHR 0xBD] @ jsonCoerce cs
      else take (runeSize (c # cs)) (c # cs) @ jsonCoerce (drop (runeSize (c # cs)) (c # cs)))"
  by pat_completeness auto
termination
  by (relation "measure length") auto

definition json_Marshal :: "Identifier \<Rightarrow> bytes \<times> error option" where
  "json_Marshal v = (Encoded (v\<lparr>uid_Name := jsonCoerce (uid_Name v)\<rparr>), None)"

fun GetValue :: "bytes \<Rightarrow> Identifier \<times> error option" where
  "GetValue (Encoded v) = (v, None)"
| "GetValue (Undecodable msg) = (\<lparr>uid_Name = [], uid_Id = 0\<rparr>, Some (StoreError msg))"

text \<open>
  \<open>servicelabel.GetDifferentAgentPrefix(ksr.MicroserviceLabel)\<close>, the prefix under which
  the broker of the allocator works. Both functions live outside the file modelled here;
  no statement below depends on the value.
\<close>

definition agentPrefix :: string where
  "agentPrefix = ''/vnf-agent/contiv-ksr/''"

text \<open>
  The allocator talks to the store through four calls. A method of the allocator is a
  tree: it either returns, or issues one call and goes on with the answer. The answers
  are what the Go client returns: the listed items or the flag, and an error.
\<close>

datatype 'a prog =
    Return 'a
  | BrokerListValues string "(string \<times> bytes) list \<times> error option \<Rightarrow> 'a prog"
  | BrokerListKeys string "string list \<times> error option \<Rightarrow> 'a prog"
  | EtcdPutIfNotExists string bytes "bool \<times> error option \<Rightarrow> 'a prog"
  | BrokerDelete string "bool \<times> error option \<Rightarrow> 'a prog"

primrec bind :: "'a prog \<Rightarrow> ('a \<Rightarrow> 'b prog) \<Rightarrow> 'b prog" where
  "bind (Return x) f = f x"
| "bind (BrokerListValues p k) f = BrokerListValues p (\<lambda>r. bind (k r) f)"
| "bind (BrokerListKeys p k) f = BrokerListKeys p (\<lambda>r. bind (k r) f)"
| "bind (EtcdPutIfNotExists key v k) f = EtcdPutIfNotExists key v (\<lambda>r. bind (k r) f)"
| "bind (BrokerDelete key k) f = BrokerDelete key (\<lambda>r. bind (k r) f)"

subsection \<open>The allocator\<close>

text \<open>
  The fields of \<open>idAllocator\<close> that hold state. The mutex makes the calls of one
  allocator run one after the other; the store client is the environment of the trees.
\<close>

record idAllocator =
  serviceLabel :: string
  allocated :: bool
  ID :: "32 word"

definition newIDAllocator :: "string \<Rightarrow> idAllocator" where
  "newIDAllocator label = \<lparr>serviceLabel = label, allocated = False, ID = 0\<rparr>"

fun findExistingEntry_loop ::
  "idAllocator \<Rightarrow> (string \<times> bytes) list \<Rightarrow> Identifier option \<times> error option" where
  "findExistingEntry_loop ia [] = (None, None)"
| "findExistingEntry_loop ia (kv # it) =
     (let (item, err) = GetValue (snd kv)
      in if err \<noteq> None then (None, err)
         else if uid_Name item = serviceLabel ia then (Some item, None)
         else findExistingEntry_loop ia it)"

definition findExistingEntry :: "idAllocator \<Rightarrow> (Identifier option \<times> error option) prog" where
  "findExistingEntry ia =
     BrokerListValues allocatedIDsKeyPrefix (\<lambda>(it, err).
       if err \<noteq> None then Return (None, err)
       else Return (findExistingEntry_loop ia it))"

fun listAllIDs_loop :: "string list \<Rightarrow> int list \<Rightarrow> int list \<times> error option" where
  "listAllIDs_loop [] ids = (ids, None)"
| "listAllIDs_loop (key # it) ids =
     (let (id, err) = extractIndexFromKey key
      in if err \<noteq> None then ([], err)
         else listAllIDs_loop it (ids @ [id]))"

definition listAllIDs :: "(int list \<times> error option) prog" where
  "listAllIDs =
     BrokerListKeys allocatedIDsKeyPrefix (\<lambda>(it, err).
       if err \<noteq> None then Return ([], err)
       else Return (listAllIDs_loop it []))"

definition writeIfNotExists :: "idAllocator \<Rightarrow> 32 word \<Rightarrow> (bool \<times> error option) prog" where
  "writeIfNotExists ia id' =
     (let value = \<lparr>uid_Name = serviceLabel ia, uid_Id = id'\<rparr>;
          (encoded, err) = json_Marshal value
      in if err \<noteq> None then Return (False, err)
         else EtcdPutIfNotExists (agentPrefix @ createKey id') encoded
                (\<lambda>(succeeded, err). Return (succeeded, err)))"

text \<open>
  The \<open>for\<close> loop of \<open>getID\<close>; \<open>attempts\<close> is the counter on entry to an iteration.
  An iteration is repeated only when \<open>attempts\<close> has not passed \<open>maxAttempts\<close>, which
  bounds the recursion.
\<close>

function allocLoop ::
  "idAllocator \<Rightarrow> nat \<Rightarrow> ((32 word \<times> error option) \<times> idAllocator) prog" where
  "allocLoop ia attempts =
     bind listAllIDs (\<lambda>(ids, err).
       if err \<noteq> None then Return ((0, err), ia)
       else
         let ids' = sort_Ints ids;
             attempts' = attempts + 1;
             ia' = ia\<lparr>ID := word_of_int (findFirstAvailableIndex ids')\<rparr>
         in bind (writeIfNotExists ia' (ID ia')) (\<lambda>(succ, err).
              if err \<noteq> None then Return ((0, err), ia')
              else if succ then Return ((ID ia', None), ia'\<lparr>allocated := True\<rparr>)
              else if attempts' > maxAttempts
                then Return ((0, Some errUnableToAllocateID), ia')
              else allocLoop ia' attempts'))"
  by pat_completeness auto
termination
  by (relation "measure (\<lambda>(ia, attempts). maxAttempts + 1 - attempts)")
     (auto simp: maxAttempts_def)

declare allocLoop.simps [simp del]

definition getID :: "idAllocator \<Rightarrow> ((32 word \<times> error option) \<times> idAllocator) prog" where
  "getID ia =
     (if allocated ia then Return ((ID ia, None), ia)
      else bind (findExistingEntry ia) (\<lambda>(existingEntry, err).
        if err \<noteq> None then Return ((0, err), ia)
        else case existingEntry of
          Some entry \<Rightarrow>
            (let ia' = ia\<lparr>allocated := True, ID := uid_Id entry\<rparr>
             in Return ((ID ia', None), ia'))
        | None \<Rightarrow> allocLoop ia 0))"

definition releaseID :: "idAllocator \<Rightarrow> (error option \<times> idAllocator) prog" where
  "releaseID ia =
     (if \<not> allocated ia then Return (Some errNoIDallocated, ia)
      else BrokerDelete (createKey (ID ia)) (\<lambda>(existed, err).
        Return (err, if err = None then ia\<lparr>allocated := False\<rparr> else ia)))"

subsection \<open>Running a method against a store client\<close>

text \<open>
  A client answers the four calls and may change its own state \<open>'s\<close> (the store, the
  network, the other nodes). Nothing is assumed about it. \<open>run\<close> executes a tree against
  a client and returns the calls issued, in order, the result, and the client's state.
\<close>

record 's client =
  doListValues :: "string \<Rightarrow> 's \<Rightarrow> ((string \<times> bytes) list \<times> error option) \<times> 's"
  doListKeys :: "string \<Rightarrow> 's \<Rightarrow> (string list \<times> error option) \<times> 's"
  doPutIfNotExists :: "string \<Rightarrow> bytes \<Rightarrow> 's \<Rightarrow> (bool \<times> error option) \<times> 's"
  doDelete :: "string \<Rightarrow> 's \<Rightarrow> (bool \<times> error option) \<times> 's"

datatype call =
    ListValuesCall string
  | ListKeysCall string
  | PutIfNotExistsCall string bytes
  | DeleteCall string

primrec run :: "'s client \<Rightarrow> 'a prog \<Rightarrow> 's \<Rightarrow> call list \<times> 'a \<times> 's" where
  "run c (Return x) s = ([], x, s)"
| "run c (BrokerListValues p k) s =
     (let (r, s1) = doListValues c p s; (cs, out) = run c (k r) s1
      in (ListValuesCall p # cs, out))"
| "run c (BrokerListKeys p k) s =
     (let (r, s1) = doListKeys c p s; (cs, out) = run c (k r) s1
      in (ListKeysCall p # cs, out))"
| "run c (EtcdPutIfNotExists key v k) s =
     (let (r, s1) = doPutIfNotExists c key v s; (cs, out) = run c (k r) s1
      in (PutIfNotExistsCall key v # cs, out))"
| "run c (BrokerDelete key k) s =
     (let (r, s1) = doDelete c key s; (cs, out) = run c (k r) s1
      in (DeleteCall key # cs, out))"

fun isWrite :: "call \<Rightarrow> bool" where
  "isWrite (PutIfNotExistsCall key v) = True"
| "isWrite _ = False"

text \<open>
  The number an iteration of the loop tries, from the numbers it listed.
\<close>

definition candidate :: "int list \<Rightarrow> 32 word" where
  "candidate ids = word_of_int (findFirstAvailableIndex (sort_Ints ids))"

subsection \<open>A store with an atomic create-if-absent\<close>

text \<open>
  The store the allocator is written for: a finite table from keys to values. The
  broker's calls work under \<open>agentPrefix\<close>: listing returns the keys without it, and
  deleting adds it. \<open>PutIfNotExists\<close> is called on the store itself and takes the full
  key; it writes the key only when it is absent, in one step. Deleting an absent key is
  not an error. The table is kept as a list; no statement depends on the order in which
  a listing returns the entries.
\<close>

type_synonym etcd = "(string \<times> bytes) list"

definition etcd_ListValues ::
  "string \<Rightarrow> etcd \<Rightarrow> ((string \<times> bytes) list \<times> error option) \<times> etcd" where
  "etcd_ListValues p st =
     ((map (\<lambda>kv. (drop (length agentPrefix) (fst kv), snd kv))
         (filter (\<lambda>kv. HasPrefix (fst kv) (agentPrefix @ p)) st), None), st)"

definition etcd_ListKeys :: "string \<Rightarrow> etcd \<Rightarrow> (string list \<times> error option) \<times> etcd" where
  "etcd_ListKeys p st =
     ((map (\<lambda>kv. drop (length agentPrefix) (fst kv))
         (filter (\<lambda>kv. HasPrefix (fst kv) (agentPrefix @ p)) st), None), st)"

definition etcd_PutIfNotExists ::
  "string \<Rightarrow> bytes \<Rightarrow> etcd \<Rightarrow> (bool \<times> error option) \<times> etcd" where
  "etcd_PutIfNotExists key v st =
     (if map_of st key = None then ((True, None), st @ [(key, v)]) else ((False, None), st))"

definition etcd_Delete :: "string \<Rightarrow> etcd \<Rightarrow> (bool \<times> error option) \<times> etcd" where
  "etcd_Delete key st =
     ((map_of st (agentPrefix @ key) \<noteq> None, None),
      filter (\<lambda>kv. fst kv \<noteq> agentPrefix @ key) st)"

definition etcd_client :: "etcd client" where
  "etcd_client =
     \<lparr>doListValues = etcd_ListValues, doListKeys = etcd_ListKeys,
      doPutIfNotExists = etcd_PutIfNotExists, doDelete = etcd_Delete\<rparr>"


text \<open>
  A client of the same store on which every conditional write is lost: just before the
  write arrives, another node, named after the number, takes the key.
\<close>

definition rivalName :: "bytes \<Rightarrow> bytes" where
  "rivalName v =
     (case v of
        Encoded r \<Rightarrow> Encoded (r\<lparr>uid_Name := ''node'' @ FormatUint (unat (uid_Id r))\<rparr>)
      | Undecodable msg \<Rightarrow> Undecodable msg)"

definition contended_client :: "etcd client" where
  "contended_client =
     \<lparr>doListValues = etcd_ListValues, doListKeys = etcd_ListKeys,
      doPutIfNotExists =
        (\<lambda>key v st. etcd_PutIfNotExists key v (snd (etcd_PutIfNotExists key (rivalName v) st))),
      doDelete = etcd_Delete\<rparr>"



text \<open>A client whose calls all fail with the error \<open>e\<close> and leave the store alone.\<close>

definition failing_client :: "error \<Rightarrow> etcd client" where
  "failing_client e =
     \<lparr>doListValues = (\<lambda>p st. (([], Some e), st)),
      doListKeys = (\<lambda>p st. (([], Some e), st)),
      doPutIfNotExists = (\<lambda>key v st. ((False, Some e), st)),
      doDelete = (\<lambda>key st. ((False, Some e), st))\<rparr>"














subsection \<open>Reachable states of a cluster\<close>









subsection \<open>Auxiliary notions for the proofs\<close>







section \<open>The key codec\<close>

lemma digit_cases: "d < 10 \<Longrightarrow> d \<in> {0, 1, 2, 3, 4, 5, 6, 7, 8, 9::nat}"
  by auto

lemma digitChar_props: "d < 10 \<Longrightarrow> isDigit (digitChar d) \<and> digitVal (digitChar d) = d"
  using digit_cases [of d] by (auto simp: isDigit_def digitVal_def digitChar_def)

lemma digitChar_not_sign:
  "d < 10 \<Longrightarrow> digitChar d \<noteq> CHR ''-'' \<and> digitChar d \<noteq> CHR ''+''"
  using digit_cases [of d] by (auto simp: digitChar_def)

lemma parseUintLoop_append:
  "parseUintLoop xs n = (m, None) \<Longrightarrow> parseUintLoop (xs @ ys) n = parseUintLoop ys m"
  by (induction xs arbitrary: n) (auto simp: Let_def split: if_splits)

lemma parseUintLoop_digit:
  assumes "d < 10" "m * 10 + d < 2 ^ 64"
  shows "parseUintLoop [digitChar d] m = (m * 10 + d, None)"
proof -
  have "m < maxUint64 div 10 + 1" using assms by (simp add: maxUint64_def)
  then show ?thesis using assms digitChar_props [of d] by (simp add: Let_def)
qed

lemma parseUintLoop_FormatUint:
  "n < 2 ^ 64 \<Longrightarrow> parseUintLoop (FormatUint n) 0 = (n, None)"
proof (induction n rule: FormatUint.induct)
  case (1 n)
  show ?case
  proof (cases "n < 10")
    case True
    then show ?thesis using parseUintLoop_digit [of n 0] "1.prems"
      by (simp add: FormatUint.simps [of n])
  next
    case False
    have ih: "parseUintLoop (FormatUint (n div 10)) 0 = (n div 10, None)"
      using "1.IH" [OF False] "1.prems" by simp
    have "parseUintLoop [digitChar (n mod 10)] (n div 10) = (n div 10 * 10 + n mod 10, None)"
      using "1.prems" by (intro parseUintLoop_digit) simp_all
    then show ?thesis using False parseUintLoop_append [OF ih]
      by (simp add: FormatUint.simps [of n])
  qed
qed

lemma FormatUint_hd: "\<exists>d cs. d < 10 \<and> FormatUint n = digitChar d # cs"
proof (induction n rule: FormatUint.induct)
  case (1 n)
  show ?case
  proof (cases "n < 10")
    case True
    then show ?thesis by (auto simp: FormatUint.simps [of n])
  next
    case False
    from "1.IH" [OF False] obtain d cs
      where "d < 10" "FormatUint (n div 10) = digitChar d # cs"
      by blast
    then show ?thesis using False by (auto simp: FormatUint.simps [of n])
  qed
qed

lemma ParseUint_FormatUint: "n < 2 ^ 64 \<Longrightarrow> ParseUint (FormatUint n) = (n, None)"
  using FormatUint_hd [of n] by (auto simp: ParseUint_def parseUintLoop_FormatUint)

lemma Atoi_FormatUint:
  assumes "n < 2 ^ 63"
  shows "Atoi (FormatUint n) = (int n, None)"
proof -
  obtain d cs where d: "d < 10" "FormatUint n = digitChar d # cs"
    using FormatUint_hd by blast
  have p: "ParseUint (digitChar d # cs) = (n, None)"
    using ParseUint_FormatUint [of n] assms d by simp
  show ?thesis using d digitChar_not_sign [of d] p assms
    by (simp add: Atoi_def)
qed

lemma Atoi_Itoa:
  assumes "- (2 ^ 63) \<le> n" "n < 2 ^ 63"
  shows "Atoi (Itoa n) = (n, None)"
proof (cases "n < 0")
  case True
  have "nat (- n) < 2 ^ 64" using assms by simp
  then have p: "ParseUint (FormatUint (nat (- n))) = (nat (- n), None)"
    by (rule ParseUint_FormatUint)
  have "\<not> nat (- n) > 2 ^ 63" using assms by simp
  then show ?thesis using True p by (simp add: Atoi_def Itoa_def)
next
  case False
  then have "nat n < 2 ^ 63" using assms by simp
  then show ?thesis using False Atoi_FormatUint [of "nat n"] by (simp add: Itoa_def)
qed

lemma Replace1_prefix: "HasPrefix key pre \<Longrightarrow> Replace1 key pre [] = drop (length pre) key"
  by (cases key) (auto simp: HasPrefix_def)

lemma HasPrefix_append: "HasPrefix (pre @ s) pre"
  by (simp add: HasPrefix_def)

lemma extractIndexFromKey_prefix: "extractIndexFromKey (allocatedIDsKeyPrefix @ s) = Atoi s"
  by (simp add: extractIndexFromKey_def HasPrefix_append Replace1_prefix)

lemma extractIndexFromKey_createKey: "extractIndexFromKey (createKey x) = (uint x, None)"
proof -
  have "unat x < 2 ^ 32" using unsigned_less [of x] by simp
  then have "unat x < 2 ^ 63" by simp
  then show ?thesis
    by (simp add: createKey_def extractIndexFromKey_prefix Atoi_FormatUint)
qed


lemma listAllIDs_loop_Itoa:
  "\<forall>n\<in>set ns. - (2 ^ 63) \<le> n \<and> n < 2 ^ 63 \<Longrightarrow>
   listAllIDs_loop (map (\<lambda>n. allocatedIDsKeyPrefix @ Itoa n) ns) acc = (acc @ ns, None)"
  by (induction ns arbitrary: acc) (simp_all add: extractIndexFromKey_prefix Atoi_Itoa)

lemmas codec_eval = extractIndexFromKey_def HasPrefix_def allocatedIDsKeyPrefix_def Atoi_def
  ParseUint_def isDigit_def digitVal_def maxUint64_def createKey_def FormatUint.simps
  digitChar_def Itoa_def Let_def

text \<open>
  C9. Decoding the key made for a number gives the number back, with no error, for every
  \<open>uint32\<close>; and a key that does not begin with \<open>allocatedIDs/\<close> is refused with
  \<open>errInvalidKey\<close>.
\<close>

theorem key_codec_roundtrip:
  "extractIndexFromKey (createKey x) = (uint x, None) \<and>
   (\<not> HasPrefix key allocatedIDsKeyPrefix \<longrightarrow>
      extractIndexFromKey key = (0, Some errInvalidKey))"
  by (simp add: extractIndexFromKey_createKey) (simp add: extractIndexFromKey_def)

theorem key_codec_roundtrip_witness:
  "createKey 4294967295 = ''allocatedIDs/4294967295'' \<and>
   extractIndexFromKey ''allocatedIDs/4294967295'' = (4294967295, None) \<and>
   \<not> HasPrefix ''allocated/7'' allocatedIDsKeyPrefix \<and>
   extractIndexFromKey ''allocated/7'' = (0, Some errInvalidKey)"
proof -
  have k: "createKey 4294967295 = ''allocatedIDs/4294967295''"
    by (simp add: codec_eval)
  have h: "\<not> HasPrefix ''allocated/7'' allocatedIDsKeyPrefix"
    by (simp add: HasPrefix_def allocatedIDsKeyPrefix_def)
  show ?thesis
    using key_codec_roundtrip [of 4294967295 "''allocated/7''"] k h by simp
qed

text \<open>
  C10. A key made of the prefix and the decimal form of any \<open>int\<close>, zero and the
  negative ones included, decodes to that \<open>int\<close> with no error: the decoder does not ask
  for a positive number. A listing of such keys therefore makes \<open>listAllIDs\<close> return
  those numbers as they are.
\<close>

theorem extractIndexFromKey_any_int:
  "(- (2 ^ 63) \<le> n \<and> n < 2 ^ 63 \<longrightarrow>
      extractIndexFromKey (allocatedIDsKeyPrefix @ Itoa n) = (n, None)) \<and>
   ((\<forall>m\<in>set ns. - (2 ^ 63) \<le> m \<and> m < 2 ^ 63) \<and>
    doListKeys c allocatedIDsKeyPrefix s =
      ((map (\<lambda>m. allocatedIDsKeyPrefix @ Itoa m) ns, None), s1) \<longrightarrow>
      run c listAllIDs s = ([ListKeysCall allocatedIDsKeyPrefix], (ns, None), s1))"
  by (simp add: extractIndexFromKey_prefix Atoi_Itoa listAllIDs_def listAllIDs_loop_Itoa)

theorem extractIndexFromKey_any_int_witness:
  "extractIndexFromKey ''allocatedIDs/-3'' = (- 3, None) \<and>
   run etcd_client listAllIDs
     [(agentPrefix @ ''allocatedIDs/-3'', Undecodable ''x''),
      (agentPrefix @ ''allocatedIDs/0'', Undecodable ''y'')] =
     ([ListKeysCall allocatedIDsKeyPrefix], ([- 3, 0], None),
      [(agentPrefix @ ''allocatedIDs/-3'', Undecodable ''x''),
       (agentPrefix @ ''allocatedIDs/0'', Undecodable ''y'')])"
proof -
  have r: "- (2 ^ 63) \<le> (- 3 :: int) \<and> (- 3 :: int) < 2 ^ 63" by simp
  have rs: "\<forall>m\<in>set [- 3, 0 :: int]. - (2 ^ 63) \<le> m \<and> m < 2 ^ 63" by simp
  have i: "allocatedIDsKeyPrefix @ Itoa (- 3) = ''allocatedIDs/-3''"
    "allocatedIDsKeyPrefix @ Itoa 0 = ''allocatedIDs/0''"
    by (simp_all add: codec_eval)
  have l: "doListKeys etcd_client allocatedIDsKeyPrefix
      [(agentPrefix @ ''allocatedIDs/-3'', Undecodable ''x''),
       (agentPrefix @ ''allocatedIDs/0'', Undecodable ''y'')] =
     ((map (\<lambda>m. allocatedIDsKeyPrefix @ Itoa m) [- 3, 0], None),
      [(agentPrefix @ ''allocatedIDs/-3'', Undecodable ''x''),
       (agentPrefix @ ''allocatedIDs/0'', Undecodable ''y'')])"
    by (simp add: codec_eval etcd_client_def etcd_ListKeys_def)
  show ?thesis
    using extractIndexFromKey_any_int [of "- 3" "[- 3, 0]" etcd_client
        "[(agentPrefix @ ''allocatedIDs/-3'', Undecodable ''x''),
          (agentPrefix @ ''allocatedIDs/0'', Undecodable ''y'')]"
        "[(agentPrefix @ ''allocatedIDs/-3'', Undecodable ''x''),
          (agentPrefix @ ''allocatedIDs/0'', Undecodable ''y'')]"] r rs i l
    by simp
qed

section \<open>The first free index\<close>

lemma firstAvailableFrom_spec:
  "sorted_wrt (<) ids \<Longrightarrow> \<forall>v\<in>set ids. res \<le> v \<Longrightarrow>
   res \<le> firstAvailableFrom res ids \<and> firstAvailableFrom res ids \<notin> set ids \<and>
   (\<forall>m. res \<le> m \<and> m < firstAvailableFrom res ids \<longrightarrow> m \<in> set ids)"
proof (induction ids arbitrary: res)
  case Nil
  then show ?case by simp
next
  case (Cons v ids)
  show ?case
  proof (cases "res = v")
    case True
    have "sorted_wrt (<) ids" "\<forall>w\<in>set ids. res + 1 \<le> w"
      using Cons.prems True by auto
    from Cons.IH [OF this]
    have ih: "res + 1 \<le> firstAvailableFrom (res + 1) ids"
      "firstAvailableFrom (res + 1) ids \<notin> set ids"
      "\<And>m. res + 1 \<le> m \<Longrightarrow> m < firstAvailableFrom (res + 1) ids \<Longrightarrow> m \<in> set ids"
      by auto
    have "\<And>m. res \<le> m \<Longrightarrow> m < firstAvailableFrom (res + 1) ids \<Longrightarrow> m \<in> set (v # ids)"
    proof -
      fix m assume "res \<le> m" "m < firstAvailableFrom (res + 1) ids"
      then show "m \<in> set (v # ids)" using ih(3) [of m] True by (cases "m = res") auto
    qed
    then show ?thesis using ih(1,2) True by auto
  next
    case False
    then show ?thesis using Cons.prems by auto
  qed
qed

lemma firstAvailableFrom_upto: "firstAvailableFrom i [i..n] = max i (n + 1)"
proof (induction i n rule: upto.induct)
  case (1 i j)
  then show ?case by (simp add: upto.simps [of i j])
qed

text \<open>
  C2. On a list of distinct positive integers in increasing order,
  \<open>findFirstAvailableIndex\<close> returns the smallest positive integer that is not in the
  list: the result is positive, is not in the list, and every smaller positive integer
  is in the list. On the list \<open>1, \<dots>, n\<close> it returns \<open>n + 1\<close>, and on \<open>1, 2, 4\<close> it
  returns \<open>3\<close>.
\<close>

theorem findFirstAvailableIndex_smallest_missing:
  assumes "sorted ids" and "distinct ids" and "\<forall>v\<in>set ids. 0 < v"
  shows "0 < findFirstAvailableIndex ids \<and>
         findFirstAvailableIndex ids \<notin> set ids \<and>
         (\<forall>m. 0 < m \<and> m < findFirstAvailableIndex ids \<longrightarrow> m \<in> set ids) \<and>
         (0 \<le> n \<longrightarrow> findFirstAvailableIndex [1..n] = n + 1) \<and>
         findFirstAvailableIndex [1, 2, 4] = 3"
proof -
  have s: "sorted_wrt (<) ids" using assms(1,2) by (simp add: strict_sorted_iff)
  have p: "\<forall>v\<in>set ids. 1 \<le> v" using assms(3) by auto
  from firstAvailableFrom_spec [OF s p]
  have "1 \<le> firstAvailableFrom 1 ids" "firstAvailableFrom 1 ids \<notin> set ids"
    "\<forall>m. 1 \<le> m \<and> m < firstAvailableFrom 1 ids \<longrightarrow> m \<in> set ids"
    by auto
  then have "0 < findFirstAvailableIndex ids" "findFirstAvailableIndex ids \<notin> set ids"
    "\<forall>m. 0 < m \<and> m < findFirstAvailableIndex ids \<longrightarrow> m \<in> set ids"
    by (auto simp: findFirstAvailableIndex_def)
  moreover have "0 \<le> n \<longrightarrow> findFirstAvailableIndex [1..n] = n + 1"
    by (simp add: findFirstAvailableIndex_def firstAvailableFrom_upto)
  moreover have "findFirstAvailableIndex [1, 2, 4] = 3"
    by (simp add: findFirstAvailableIndex_def)
  ultimately show ?thesis by blast
qed

theorem findFirstAvailableIndex_smallest_missing_witness:
  "sorted [2, 3, 7 :: int] \<and> distinct [2, 3, 7 :: int] \<and>
   findFirstAvailableIndex [2, 3, 7] \<notin> set [2, 3, 7] \<and>
   findFirstAvailableIndex [2, 3, 7] = 1 \<and>
   findFirstAvailableIndex [1..5] = 6"
proof -
  have a: "sorted [2, 3, 7 :: int]" by simp
  have b: "distinct [2, 3, 7 :: int]" by simp
  have c: "\<forall>v\<in>set [2, 3, 7 :: int]. 0 < v" by simp
  from findFirstAvailableIndex_smallest_missing [OF a b c, of 5]
  have "findFirstAvailableIndex [2, 3, 7] \<notin> set [2, 3, 7]"
    "findFirstAvailableIndex [1..5] = 6"
    by simp_all
  moreover have "findFirstAvailableIndex [2, 3, 7] = 1"
    by (simp add: findFirstAvailableIndex_def)
  ultimately show ?thesis using a b by simp
qed

section \<open>Running the methods\<close>

lemma run_bind:
  "run c (bind m f) s =
     (let (cs1, a, s1) = run c m s; (cs2, out) = run c (f a) s1 in (cs1 @ cs2, out))"
  by (induction m arbitrary: s) (simp_all add: Let_def split: prod.splits)

lemma run_allocLoop:
  "run c (allocLoop ia n) s =
     (let ((keys, lerr), s1) = doListKeys c allocatedIDsKeyPrefix s
      in if lerr \<noteq> None then ([ListKeysCall allocatedIDsKeyPrefix], ((0, lerr), ia), s1)
         else
           let (ids, kerr) = listAllIDs_loop keys []
           in if kerr \<noteq> None
              then ([ListKeysCall allocatedIDsKeyPrefix], ((0, kerr), ia), s1)
              else
                let ia' = ia\<lparr>ID := candidate ids\<rparr>;
                    key = agentPrefix @ createKey (candidate ids);
                    v = Encoded \<lparr>uid_Name = jsonCoerce (serviceLabel ia),
                                 uid_Id = candidate ids\<rparr>;
                    pre = [ListKeysCall allocatedIDsKeyPrefix, PutIfNotExistsCall key v];
                    ((succ, err), s2) = doPutIfNotExists c key v s1
                in if err \<noteq> None then (pre, ((0, err), ia'), s2)
                   else if succ
                     then (pre, ((candidate ids, None), ia'\<lparr>allocated := True\<rparr>), s2)
                   else if n + 1 > maxAttempts
                     then (pre, ((0, Some errUnableToAllocateID), ia'), s2)
                   else (let (cs, out) = run c (allocLoop ia' (n + 1)) s2
                         in (pre @ cs, out)))"
  by (subst allocLoop.simps)
     (simp add: run_bind listAllIDs_def writeIfNotExists_def json_Marshal_def candidate_def
        Let_def split: prod.splits)

lemma run_getID:
  "\<not> allocated ia \<Longrightarrow>
   run c (getID ia) s =
     (let ((it, err), s1) = doListValues c allocatedIDsKeyPrefix s
      in if err \<noteq> None then ([ListValuesCall allocatedIDsKeyPrefix], ((0, err), ia), s1)
         else
           let (existingEntry, ferr) = findExistingEntry_loop ia it
           in if ferr \<noteq> None
              then ([ListValuesCall allocatedIDsKeyPrefix], ((0, ferr), ia), s1)
              else
                case existingEntry of
                  Some entry \<Rightarrow>
                    ([ListValuesCall allocatedIDsKeyPrefix],
                     ((uid_Id entry, None), ia\<lparr>allocated := True, ID := uid_Id entry\<rparr>), s1)
                | None \<Rightarrow>
                    (let (cs, out) = run c (allocLoop ia 0) s1
                     in (ListValuesCall allocatedIDsKeyPrefix # cs, out)))"
  by (simp add: getID_def run_bind findExistingEntry_def Let_def
        split: prod.splits option.splits)

lemma allocLoop_induct [consumes 0, case_names iteration]:
  assumes "\<And>ia n. (\<And>ia'. n + 1 \<le> maxAttempts \<Longrightarrow> P ia' (n + 1)) \<Longrightarrow> P ia n"
  shows "P ia n"
proof (induction "maxAttempts + 1 - n" arbitrary: ia n)
  case 0
  show ?case
  proof (rule assms)
    fix ia'
    assume "n + 1 \<le> maxAttempts"
    then show "P ia' (n + 1)" using 0 by simp
  qed
next
  case (Suc k)
  show ?case
  proof (rule assms)
    fix ia'
    assume "n + 1 \<le> maxAttempts"
    then have "k = maxAttempts + 1 - (n + 1)" using Suc.hyps(2) by simp
    then show "P ia' (n + 1)" by (rule Suc.hyps(1))
  qed
qed


lemma findExistingEntry_loop_append:
  "findExistingEntry_loop ia xs = (None, None) \<Longrightarrow>
   findExistingEntry_loop ia (xs @ ys) = findExistingEntry_loop ia ys"
  by (induction xs) (auto simp: Let_def split: prod.splits if_splits)

lemma findExistingEntry_loop_first:
  "\<forall>kv\<in>set pre. \<exists>r. snd kv = Encoded r \<and> uid_Name r \<noteq> serviceLabel ia \<Longrightarrow>
   findExistingEntry_loop ia pre = (None, None)"
  by (induction pre) auto

lemma findExistingEntry_loop_label:
  "serviceLabel ia = serviceLabel ia' \<Longrightarrow>
   findExistingEntry_loop ia it = findExistingEntry_loop ia' it"
  by (induction it) (auto simp: Let_def split: prod.splits)

lemma run_allocLoop_success:
  "run c (allocLoop ia n) s = (cs, ((x, None), ia'), s') \<Longrightarrow>
   allocated ia' \<and> ID ia' = x \<and> serviceLabel ia' = serviceLabel ia"
proof (induction ia n arbitrary: s cs rule: allocLoop_induct)
  case (iteration ia n)
  have again: "allocated ia' \<and> ID ia' = x \<and> serviceLabel ia' = serviceLabel ia"
    if "\<not> maxAttempts < Suc n"
      and "run c (allocLoop (ia\<lparr>ID := y\<rparr>) (Suc n)) s2 = (cs2, ((x, None), ia'), s')"
    for y s2 cs2
    using iteration.IH [of "ia\<lparr>ID := y\<rparr>" s2 cs2] that by simp
  from iteration.prems show ?case
    apply (subst (asm) run_allocLoop)
    apply (auto simp: Let_def split: prod.splits if_splits dest: again)
    done
qed

lemma run_getID_success:
  assumes "run c (getID ia) s = (cs, ((x, None), ia'), s')"
  shows "allocated ia' \<and> ID ia' = x \<and> serviceLabel ia' = serviceLabel ia"
proof (cases "allocated ia")
  case True
  then show ?thesis using assms by (auto simp: getID_def)
next
  case False
  from assms show ?thesis
    apply (subst (asm) run_getID [OF False])
    apply (auto simp: Let_def split: prod.splits if_splits option.splits
        dest: run_allocLoop_success)
    done
qed

lemmas store_eval = etcd_client_def etcd_ListValues_def etcd_ListKeys_def
  etcd_PutIfNotExists_def etcd_Delete_def failing_client_def contended_client_def
  rivalName_def agentPrefix_def

lemmas alloc_eval = getID_def releaseID_def findExistingEntry_def listAllIDs_def
  writeIfNotExists_def json_Marshal_def runeSize_def contByte_def allocLoop.simps
  newIDAllocator_def sort_Ints_def findFirstAvailableIndex_def maxAttempts_def

text \<open>
  C4. An allocator that holds a number returns it from \<open>getID\<close> with no error and
  without a single call to the store, whatever the store client is. Hence, when a call
  of \<open>getID\<close> has returned a number, the next call returns the same number and issues no
  call.
\<close>

theorem getID_allocated_no_store_call:
  "(allocated ia \<longrightarrow>
      getID ia = Return ((ID ia, None), ia) \<and>
      run c (getID ia) s = ([], ((ID ia, None), ia), s)) \<and>
   (run c (getID ia) s = (cs, ((x, None), ia'), s') \<longrightarrow>
      run c (getID ia') s' = ([], ((x, None), ia'), s'))"
proof -
  have "run c (getID ia') s' = ([], ((x, None), ia'), s')"
    if "run c (getID ia) s = (cs, ((x, None), ia'), s')"
    using run_getID_success [OF that] by (simp add: getID_def)
  then show ?thesis by (simp add: getID_def)
qed

theorem getID_allocated_no_store_call_witness:
  "run etcd_client (getID (newIDAllocator ''n1'')) [] =
     ([ListValuesCall ''allocatedIDs/'', ListKeysCall ''allocatedIDs/'',
       PutIfNotExistsCall ''/vnf-agent/contiv-ksr/allocatedIDs/1''
         (Encoded \<lparr>uid_Name = ''n1'', uid_Id = 1\<rparr>)],
      ((1, None), \<lparr>serviceLabel = ''n1'', allocated = True, ID = 1\<rparr>),
      [(''/vnf-agent/contiv-ksr/allocatedIDs/1'', Encoded \<lparr>uid_Name = ''n1'', uid_Id = 1\<rparr>)]) \<and>
   run etcd_client (getID \<lparr>serviceLabel = ''n1'', allocated = True, ID = 1\<rparr>)
     [(''/vnf-agent/contiv-ksr/allocatedIDs/1'', Encoded \<lparr>uid_Name = ''n1'', uid_Id = 1\<rparr>)] =
     ([], ((1, None), \<lparr>serviceLabel = ''n1'', allocated = True, ID = 1\<rparr>),
      [(''/vnf-agent/contiv-ksr/allocatedIDs/1'', Encoded \<lparr>uid_Name = ''n1'', uid_Id = 1\<rparr>)])"
proof -
  have first: "run etcd_client (getID (newIDAllocator ''n1'')) [] =
     ([ListValuesCall ''allocatedIDs/'', ListKeysCall ''allocatedIDs/'',
       PutIfNotExistsCall ''/vnf-agent/contiv-ksr/allocatedIDs/1''
         (Encoded \<lparr>uid_Name = ''n1'', uid_Id = 1\<rparr>)],
      ((1, None), \<lparr>serviceLabel = ''n1'', allocated = True, ID = 1\<rparr>),
      [(''/vnf-agent/contiv-ksr/allocatedIDs/1'', Encoded \<lparr>uid_Name = ''n1'', uid_Id = 1\<rparr>)])"
    by (simp add: alloc_eval store_eval codec_eval)
  from getID_allocated_no_store_call [of "newIDAllocator ''n1''" etcd_client "[]"] first
  show ?thesis by simp
qed

text \<open>
  C6. An allocator that holds no number answers \<open>releaseID\<close> with \<open>errNoIDallocated\<close>; it
  issues no call to the store, so the store is as it was, and the allocator is
  unchanged.
\<close>

theorem releaseID_nothing_allocated:
  "\<not> allocated ia \<Longrightarrow>
   releaseID ia = Return (Some errNoIDallocated, ia) \<and>
   run c (releaseID ia) s = ([], (Some errNoIDallocated, ia), s)"
  by (simp add: releaseID_def)

theorem releaseID_nothing_allocated_witness:
  "\<not> allocated (newIDAllocator ''n1'') \<and>
   run etcd_client (releaseID (newIDAllocator ''n1''))
     [(agentPrefix @ createKey 0, Encoded \<lparr>uid_Name = ''n2'', uid_Id = 0\<rparr>)] =
     ([], (Some errNoIDallocated, newIDAllocator ''n1''),
      [(agentPrefix @ createKey 0, Encoded \<lparr>uid_Name = ''n2'', uid_Id = 0\<rparr>)])"
proof -
  have h: "\<not> allocated (newIDAllocator ''n1'')" by (simp add: newIDAllocator_def)
  from releaseID_nothing_allocated [OF h, of etcd_client
      "[(agentPrefix @ createKey 0, Encoded \<lparr>uid_Name = ''n2'', uid_Id = 0\<rparr>)]"] h
  show ?thesis by simp
qed

text \<open>
  C7. When an allocator that holds a number calls \<open>releaseID\<close>, one delete is issued for
  the key of the number. If the delete returns an error, the allocator still holds the
  number and \<open>releaseID\<close> returns that error. If it returns no error, whether or not the
  key was there, the allocator holds nothing and \<open>releaseID\<close> returns no error.
\<close>

theorem releaseID_delete_outcome:
  assumes "allocated ia"
    and "doDelete c (createKey (ID ia)) s = ((existed, err), s1)"
  shows "(err \<noteq> None \<longrightarrow>
            run c (releaseID ia) s = ([DeleteCall (createKey (ID ia))], (err, ia), s1)) \<and>
         (err = None \<longrightarrow>
            run c (releaseID ia) s =
              ([DeleteCall (createKey (ID ia))], (None, ia\<lparr>allocated := False\<rparr>), s1))"
  using assms by (simp add: releaseID_def)

theorem releaseID_delete_outcome_witness:
  "run (failing_client (StoreError ''timeout'')) (releaseID \<lparr>serviceLabel = ''n1'', allocated = True, ID = 5\<rparr>) [] =
     ([DeleteCall ''allocatedIDs/5''],
      (Some (StoreError ''timeout''), \<lparr>serviceLabel = ''n1'', allocated = True, ID = 5\<rparr>), []) \<and>
   run etcd_client (releaseID \<lparr>serviceLabel = ''n1'', allocated = True, ID = 5\<rparr>) [] =
     ([DeleteCall ''allocatedIDs/5''],
      (None, \<lparr>serviceLabel = ''n1'', allocated = False, ID = 5\<rparr>), [])"
proof -
  let ?ia = "\<lparr>serviceLabel = ''n1'', allocated = True, ID = 5\<rparr>"
  have a: "allocated ?ia" by simp
  have k: "createKey 5 = ''allocatedIDs/5''" by (simp add: codec_eval)
  have d1: "doDelete (failing_client (StoreError ''timeout'')) (createKey (ID ?ia)) [] =
      ((False, Some (StoreError ''timeout'')), [])"
    by (simp add: failing_client_def)
  have d2: "doDelete etcd_client (createKey (ID ?ia)) [] = ((False, None), [])"
    by (simp add: etcd_client_def etcd_Delete_def)
  from releaseID_delete_outcome [OF a d1] releaseID_delete_outcome [OF a d2] k
  show ?thesis by simp
qed

section \<open>Errors of the store and the retry loop\<close>

text \<open>
  C8. In \<open>getID\<close>, an error of the discovery listing or of the decoding of a listed value,
  an error of the listing of keys or of the decoding of a key, and an error of the
  conditional write each end the call at once: the result is the number \<open>0\<close> with that
  error, and the failed call is the last one issued. When discovery finds no record the
  call goes on with the loop. In the loop, a conditional write that reports no error
  and no success is the one outcome after which the loop runs again (while the counter
  has not passed \<open>maxAttempts\<close>); a write that succeeds ends the call with the number.
\<close>

theorem getID_store_error_aborts:
  "(\<not> allocated ia \<and> doListValues c allocatedIDsKeyPrefix s = ((it, Some e), s1) \<longrightarrow>
      run c (getID ia) s = ([ListValuesCall allocatedIDsKeyPrefix], ((0, Some e), ia), s1)) \<and>
   (\<not> allocated ia \<and> doListValues c allocatedIDsKeyPrefix s = ((it, None), s1) \<and>
    findExistingEntry_loop ia it = (r, Some e) \<longrightarrow>
      run c (getID ia) s = ([ListValuesCall allocatedIDsKeyPrefix], ((0, Some e), ia), s1)) \<and>
   (\<not> allocated ia \<and> doListValues c allocatedIDsKeyPrefix s = ((it, None), s1) \<and>
    findExistingEntry_loop ia it = (None, None) \<longrightarrow>
      run c (getID ia) s =
        (let (cs, out) = run c (allocLoop ia 0) s1
         in (ListValuesCall allocatedIDsKeyPrefix # cs, out))) \<and>
   (doListKeys c allocatedIDsKeyPrefix s = ((keys, Some e), s1) \<longrightarrow>
      run c (allocLoop ia n) s = ([ListKeysCall allocatedIDsKeyPrefix], ((0, Some e), ia), s1)) \<and>
   (doListKeys c allocatedIDsKeyPrefix s = ((keys, None), s1) \<and>
    listAllIDs_loop keys [] = (ids', Some e) \<longrightarrow>
      run c (allocLoop ia n) s = ([ListKeysCall allocatedIDsKeyPrefix], ((0, Some e), ia), s1)) \<and>
   (doListKeys c allocatedIDsKeyPrefix s = ((keys, None), s1) \<and>
    listAllIDs_loop keys [] = (ids, None) \<and>
    doPutIfNotExists c (agentPrefix @ createKey (candidate ids))
      (Encoded \<lparr>uid_Name = jsonCoerce (serviceLabel ia), uid_Id = candidate ids\<rparr>) s1 =
      ((succ, err), s2) \<longrightarrow>
      run c (allocLoop ia n) s =
        (let pre = [ListKeysCall allocatedIDsKeyPrefix,
                    PutIfNotExistsCall (agentPrefix @ createKey (candidate ids))
                      (Encoded \<lparr>uid_Name = jsonCoerce (serviceLabel ia),
                                uid_Id = candidate ids\<rparr>)];
             ia' = ia\<lparr>ID := candidate ids\<rparr>
         in if err \<noteq> None then (pre, ((0, err), ia'), s2)
            else if succ then (pre, ((candidate ids, None), ia'\<lparr>allocated := True\<rparr>), s2)
            else if n + 1 > maxAttempts
              then (pre, ((0, Some errUnableToAllocateID), ia'), s2)
            else (let (cs, out) = run c (allocLoop ia' (n + 1)) s2 in (pre @ cs, out))))"
  by (simp add: run_getID run_allocLoop Let_def)

theorem getID_store_error_aborts_witness:
  "run (failing_client (StoreError ''unavailable'')) (getID (newIDAllocator ''n1'')) [] =
     ([ListValuesCall allocatedIDsKeyPrefix],
      ((0, Some (StoreError ''unavailable'')), newIDAllocator ''n1''), []) \<and>
   run (failing_client (StoreError ''unavailable'')) (allocLoop (newIDAllocator ''n1'') 0) [] =
     ([ListKeysCall allocatedIDsKeyPrefix],
      ((0, Some (StoreError ''unavailable'')), newIDAllocator ''n1''), []) \<and>
   run (etcd_client\<lparr>doPutIfNotExists :=
          doPutIfNotExists (failing_client (StoreError ''unavailable''))\<rparr>)
       (allocLoop (newIDAllocator ''n1'') 0) [] =
     ([ListKeysCall allocatedIDsKeyPrefix,
       PutIfNotExistsCall (agentPrefix @ createKey 1)
         (Encoded \<lparr>uid_Name = ''n1'', uid_Id = 1\<rparr>)],
      ((0, Some (StoreError ''unavailable'')), (newIDAllocator ''n1'')\<lparr>ID := 1\<rparr>), [])"
proof -
  let ?f = "failing_client (StoreError ''unavailable'')"
  let ?m = "etcd_client\<lparr>doPutIfNotExists := doPutIfNotExists ?f\<rparr>"
  let ?ia = "newIDAllocator ''n1''"
  have na: "\<not> allocated ?ia" by (simp add: newIDAllocator_def)
  have lv: "doListValues ?f allocatedIDsKeyPrefix [] = (([], Some (StoreError ''unavailable'')), [])"
    by (simp add: failing_client_def)
  have lk: "doListKeys ?f allocatedIDsKeyPrefix [] = (([], Some (StoreError ''unavailable'')), [])"
    by (simp add: failing_client_def)
  have lk2: "doListKeys ?m allocatedIDsKeyPrefix [] = (([], None), [])"
    by (simp add: etcd_client_def etcd_ListKeys_def)
  have ids: "listAllIDs_loop [] [] = ([], None)" by simp
  have cand: "candidate [] = 1"
    by (simp add: candidate_def sort_Ints_def findFirstAvailableIndex_def)
  have put: "doPutIfNotExists ?m (agentPrefix @ createKey (candidate []))
      (Encoded \<lparr>uid_Name = jsonCoerce (serviceLabel ?ia), uid_Id = candidate []\<rparr>) [] =
      ((False, Some (StoreError ''unavailable'')), [])"
    by (simp add: failing_client_def)
  have lbl: "serviceLabel ?ia = ''n1''" "jsonCoerce (serviceLabel ?ia) = ''n1''"
    by (simp_all add: newIDAllocator_def runeSize_def)
  from getID_store_error_aborts [where ia = ?ia and c = ?f and s = "[]" and it = "[]"
      and e = "StoreError ''unavailable''" and ?s1.0 = "[]" and keys = "[]" and n = 0] na lv lk
  have a: "run ?f (getID ?ia) [] =
       ([ListValuesCall allocatedIDsKeyPrefix], ((0, Some (StoreError ''unavailable'')), ?ia), [])"
    and b: "run ?f (allocLoop ?ia 0) [] =
       ([ListKeysCall allocatedIDsKeyPrefix], ((0, Some (StoreError ''unavailable'')), ?ia), [])"
    by simp_all
  from getID_store_error_aborts [where ia = ?ia and c = ?m and s = "[]" and ?s1.0 = "[]"
      and keys = "[]" and ids = "[]" and n = 0 and succ = False
      and err = "Some (StoreError ''unavailable'')" and ?s2.0 = "[]"] lk2 ids put
  have c: "run ?m (allocLoop ?ia 0) [] =
       ([ListKeysCall allocatedIDsKeyPrefix,
         PutIfNotExistsCall (agentPrefix @ createKey 1) (Encoded \<lparr>uid_Name = ''n1'', uid_Id = 1\<rparr>)],
        ((0, Some (StoreError ''unavailable'')), ?ia\<lparr>ID := 1\<rparr>), [])"
    by (simp add: cand lbl runeSize_def)
  from a b c show ?thesis by simp
qed

section \<open>Discovery of an existing record\<close>

lemma HasPrefix_createKey:
  "HasPrefix (agentPrefix @ createKey x) (agentPrefix @ allocatedIDsKeyPrefix)"
  by (simp add: HasPrefix_def createKey_def)

lemma etcd_ListValues_append:
  "fst (fst (etcd_ListValues p (st @ st'))) =
     fst (fst (etcd_ListValues p st)) @ fst (fst (etcd_ListValues p st'))"
  by (simp add: etcd_ListValues_def)

lemma etcd_allocLoop_success:
  "run etcd_client (allocLoop ia n) st = (cs, ((x, None), ia'), st') \<Longrightarrow>
   st' = st @ [(agentPrefix @ createKey x,
                Encoded \<lparr>uid_Name = jsonCoerce (serviceLabel ia), uid_Id = x\<rparr>)]"
proof (induction ia n arbitrary: cs rule: allocLoop_induct)
  case (iteration ia n)
  have again: "st' = st @ [(agentPrefix @ createKey x,
        Encoded \<lparr>uid_Name = jsonCoerce (serviceLabel ia), uid_Id = x\<rparr>)]"
    if "\<not> maxAttempts < Suc n"
      and "run etcd_client (allocLoop (ia\<lparr>ID := y\<rparr>) (Suc n)) st = (cs2, ((x, None), ia'), st')"
    for y cs2
    using iteration.IH [of "ia\<lparr>ID := y\<rparr>" cs2] that by simp
  from iteration.prems show ?case
    apply (subst (asm) run_allocLoop)
    apply (auto simp: Let_def etcd_client_def etcd_ListKeys_def etcd_PutIfNotExists_def
        split: prod.splits if_splits dest: again)
    done
qed

lemma idAllocator_eq:
  "serviceLabel a = serviceLabel b \<Longrightarrow> allocated a = allocated b \<Longrightarrow> ID a = ID b \<Longrightarrow>
   a = (b :: idAllocator)"
  by simp

text \<open>
  C5, as the claim states it, fails in two ways. A value that cannot be decoded, listed
  before the record of the owner, ends \<open>getID\<close> with the decoding error although the
  store contains the record. And an allocator whose label is the byte FF writes the
  name U+FFFD; a fresh allocator with the same label does not find that record and
  takes the next number.
\<close>

theorem existing_record_not_adopted:
  "run etcd_client (getID (newIDAllocator ''n2''))
     [(agentPrefix @ createKey 1, Undecodable ''garbage''),
      (agentPrefix @ createKey 2, Encoded \<lparr>uid_Name = ''n2'', uid_Id = 2\<rparr>)] =
     ([ListValuesCall allocatedIDsKeyPrefix],
      ((0, Some (StoreError ''garbage'')), \<lparr>serviceLabel = ''n2'', allocated = False, ID = 0\<rparr>),
      [(agentPrefix @ createKey 1, Undecodable ''garbage''),
       (agentPrefix @ createKey 2, Encoded \<lparr>uid_Name = ''n2'', uid_Id = 2\<rparr>)]) \<and>
   snd (run etcd_client (getID (newIDAllocator [CHR 0xFF])) []) =
     (((1, None), \<lparr>serviceLabel = [CHR 0xFF], allocated = True, ID = 1\<rparr>),
      [(''/vnf-agent/contiv-ksr/allocatedIDs/1'',
        Encoded \<lparr>uid_Name = [CHR 0xEF, CHR 0xBF, CHR 0xBD], uid_Id = 1\<rparr>)]) \<and>
   snd (run etcd_client (getID (newIDAllocator [CHR 0xFF]))
     [(''/vnf-agent/contiv-ksr/allocatedIDs/1'',
       Encoded \<lparr>uid_Name = [CHR 0xEF, CHR 0xBF, CHR 0xBD], uid_Id = 1\<rparr>)]) =
     (((2, None), \<lparr>serviceLabel = [CHR 0xFF], allocated = True, ID = 2\<rparr>),
      [(''/vnf-agent/contiv-ksr/allocatedIDs/1'',
        Encoded \<lparr>uid_Name = [CHR 0xEF, CHR 0xBF, CHR 0xBD], uid_Id = 1\<rparr>),
       (''/vnf-agent/contiv-ksr/allocatedIDs/2'',
        Encoded \<lparr>uid_Name = [CHR 0xEF, CHR 0xBF, CHR 0xBD], uid_Id = 2\<rparr>)])"
proof (intro conjI)
  show "run etcd_client (getID (newIDAllocator ''n2''))
     [(agentPrefix @ createKey 1, Undecodable ''garbage''),
      (agentPrefix @ createKey 2, Encoded \<lparr>uid_Name = ''n2'', uid_Id = 2\<rparr>)] =
     ([ListValuesCall allocatedIDsKeyPrefix],
      ((0, Some (StoreError ''garbage'')), \<lparr>serviceLabel = ''n2'', allocated = False, ID = 0\<rparr>),
      [(agentPrefix @ createKey 1, Undecodable ''garbage''),
       (agentPrefix @ createKey 2, Encoded \<lparr>uid_Name = ''n2'', uid_Id = 2\<rparr>)])"
    by (simp add: run_getID newIDAllocator_def etcd_client_def etcd_ListValues_def
        HasPrefix_createKey)
  show "snd (run etcd_client (getID (newIDAllocator [CHR 0xFF])) []) =
     (((1, None), \<lparr>serviceLabel = [CHR 0xFF], allocated = True, ID = 1\<rparr>),
      [(''/vnf-agent/contiv-ksr/allocatedIDs/1'',
        Encoded \<lparr>uid_Name = [CHR 0xEF, CHR 0xBF, CHR 0xBD], uid_Id = 1\<rparr>)])"
    by (simp add: alloc_eval store_eval codec_eval)
  show "snd (run etcd_client (getID (newIDAllocator [CHR 0xFF]))
     [(''/vnf-agent/contiv-ksr/allocatedIDs/1'',
       Encoded \<lparr>uid_Name = [CHR 0xEF, CHR 0xBF, CHR 0xBD], uid_Id = 1\<rparr>)]) =
     (((2, None), \<lparr>serviceLabel = [CHR 0xFF], allocated = True, ID = 2\<rparr>),
      [(''/vnf-agent/contiv-ksr/allocatedIDs/1'',
        Encoded \<lparr>uid_Name = [CHR 0xEF, CHR 0xBF, CHR 0xBD], uid_Id = 1\<rparr>),
       (''/vnf-agent/contiv-ksr/allocatedIDs/2'',
        Encoded \<lparr>uid_Name = [CHR 0xEF, CHR 0xBF, CHR 0xBD], uid_Id = 2\<rparr>)])"
    by (simp add: alloc_eval store_eval codec_eval)
qed

text \<open>
  C5, amended. When an allocator holds no number, the discovery listing succeeds, and
  it returns a record whose owner is the allocator's label after values that all decode
  to records of other owners, \<open>getID\<close> marks the allocator as allocated with the number
  of that record and returns it; the listing is the only call issued, so no write is
  attempted. Hence, on the store with create-if-absent and for a label that the JSON
  encoding leaves as it is (a label that is valid UTF-8), when \<open>getID\<close> of a fresh
  allocator has returned a number, \<open>getID\<close> of another fresh allocator with the same
  label returns the same number, after the listing alone.
\<close>

theorem getID_adopts_listed_record:
  "(\<not> allocated ia \<and>
    doListValues c allocatedIDsKeyPrefix s = ((pre @ (k, Encoded entry) # post, None), s1) \<and>
    uid_Name entry = serviceLabel ia \<and>
    (\<forall>kv\<in>set pre. \<exists>r. snd kv = Encoded r \<and> uid_Name r \<noteq> serviceLabel ia) \<longrightarrow>
      run c (getID ia) s =
        ([ListValuesCall allocatedIDsKeyPrefix],
         ((uid_Id entry, None), ia\<lparr>allocated := True, ID := uid_Id entry\<rparr>), s1)) \<and>
   (jsonCoerce l = l \<and>
    run etcd_client (getID (newIDAllocator l)) st = (cs, ((x, None), ia'), st') \<longrightarrow>
      run etcd_client (getID (newIDAllocator l)) st' =
        ([ListValuesCall allocatedIDsKeyPrefix], ((x, None), ia'), st'))"
proof (intro conjI impI)
  assume a: "\<not> allocated ia \<and>
    doListValues c allocatedIDsKeyPrefix s = ((pre @ (k, Encoded entry) # post, None), s1) \<and>
    uid_Name entry = serviceLabel ia \<and>
    (\<forall>kv\<in>set pre. \<exists>r. snd kv = Encoded r \<and> uid_Name r \<noteq> serviceLabel ia)"
  then have "findExistingEntry_loop ia pre = (None, None)"
    by (intro findExistingEntry_loop_first) simp
  then have "findExistingEntry_loop ia (pre @ (k, Encoded entry) # post) = (Some entry, None)"
    using a by (simp add: findExistingEntry_loop_append)
  then show "run c (getID ia) s =
        ([ListValuesCall allocatedIDsKeyPrefix],
         ((uid_Id entry, None), ia\<lparr>allocated := True, ID := uid_Id entry\<rparr>), s1)"
    using a by (simp add: run_getID)
next
  let ?ia = "newIDAllocator l"
  let ?lv = "\<lambda>st. fst (fst (etcd_ListValues allocatedIDsKeyPrefix st))"
  assume "jsonCoerce l = l \<and>
    run etcd_client (getID ?ia) st = (cs, ((x, None), ia'), st')"
  then have valid: "jsonCoerce l = l"
    and r: "run etcd_client (getID ?ia) st = (cs, ((x, None), ia'), st')"
    by simp_all
  have na: "\<not> allocated ?ia" and lbl: "serviceLabel ?ia = l"
    by (simp_all add: newIDAllocator_def)
  have lv: "doListValues etcd_client allocatedIDsKeyPrefix t = ((?lv t, None), t)" for t
    by (simp add: etcd_client_def etcd_ListValues_def)
  from run_getID_success [OF r] lbl
  have ia': "ia' = ?ia\<lparr>allocated := True, ID := x\<rparr>"
    by (intro idAllocator_eq) simp_all
  obtain found ferr where f: "findExistingEntry_loop ?ia (?lv st) = (found, ferr)"
    by (cases "findExistingEntry_loop ?ia (?lv st)")
  have noerr: "ferr = None"
    using r f by (cases ferr) (simp_all add: run_getID [OF na] lv)
  show "run etcd_client (getID ?ia) st' =
        ([ListValuesCall allocatedIDsKeyPrefix], ((x, None), ia'), st')"
  proof (cases found)
    case (Some entry)
    then have "st' = st" "x = uid_Id entry"
      using r f noerr by (simp_all add: run_getID [OF na] lv)
    then show ?thesis using f noerr Some ia' by (simp add: run_getID [OF na] lv)
  next
    case None
    then obtain cs' where "run etcd_client (allocLoop ?ia 0) st = (cs', ((x, None), ia'), st')"
      using r f noerr by (auto simp: run_getID [OF na] lv split: prod.splits)
    from etcd_allocLoop_success [OF this] lbl valid
    have st': "st' = st @ [(agentPrefix @ createKey x, Encoded \<lparr>uid_Name = l, uid_Id = x\<rparr>)]"
      by simp
    have "?lv st' = ?lv st @ [(createKey x, Encoded \<lparr>uid_Name = l, uid_Id = x\<rparr>)]"
      unfolding st' etcd_ListValues_append
      by (simp add: etcd_ListValues_def HasPrefix_createKey)
    then have "findExistingEntry_loop ?ia (?lv st') = (Some \<lparr>uid_Name = l, uid_Id = x\<rparr>, None)"
      using f noerr None lbl by (simp add: findExistingEntry_loop_append)
    then show ?thesis using ia' by (simp add: run_getID [OF na] lv)
  qed
qed

theorem getID_adopts_listed_record_witness:
  "run etcd_client (getID (newIDAllocator ''n2''))
     [(agentPrefix @ createKey 1, Encoded \<lparr>uid_Name = ''n1'', uid_Id = 1\<rparr>),
      (agentPrefix @ createKey 2, Encoded \<lparr>uid_Name = ''n2'', uid_Id = 2\<rparr>)] =
     ([ListValuesCall allocatedIDsKeyPrefix],
      ((2, None), \<lparr>serviceLabel = ''n2'', allocated = True, ID = 2\<rparr>),
      [(agentPrefix @ createKey 1, Encoded \<lparr>uid_Name = ''n1'', uid_Id = 1\<rparr>),
       (agentPrefix @ createKey 2, Encoded \<lparr>uid_Name = ''n2'', uid_Id = 2\<rparr>)]) \<and>
   jsonCoerce ''n3'' = ''n3'' \<and>
   run etcd_client (getID (newIDAllocator ''n3''))
     [(''/vnf-agent/contiv-ksr/allocatedIDs/1'', Encoded \<lparr>uid_Name = ''n3'', uid_Id = 1\<rparr>)] =
     ([ListValuesCall allocatedIDsKeyPrefix],
      ((1, None), \<lparr>serviceLabel = ''n3'', allocated = True, ID = 1\<rparr>),
      [(''/vnf-agent/contiv-ksr/allocatedIDs/1'', Encoded \<lparr>uid_Name = ''n3'', uid_Id = 1\<rparr>)])"
proof -
  let ?st = "[(agentPrefix @ createKey 1, Encoded \<lparr>uid_Name = ''n1'', uid_Id = 1\<rparr>),
      (agentPrefix @ createKey 2, Encoded \<lparr>uid_Name = ''n2'', uid_Id = 2\<rparr>)]"
  let ?ia = "newIDAllocator ''n2''"
  have na: "\<not> allocated ?ia" and lbl: "serviceLabel ?ia = ''n2''"
    by (simp_all add: newIDAllocator_def)
  have lv: "doListValues etcd_client allocatedIDsKeyPrefix ?st =
      (([(createKey 1, Encoded \<lparr>uid_Name = ''n1'', uid_Id = 1\<rparr>)] @
        (createKey 2, Encoded \<lparr>uid_Name = ''n2'', uid_Id = 2\<rparr>) # [], None), ?st)"
    by (simp add: etcd_client_def etcd_ListValues_def HasPrefix_createKey)
  have nm: "uid_Name \<lparr>uid_Name = ''n2'', uid_Id = 2\<rparr> = serviceLabel ?ia"
    by (simp add: lbl)
  have others: "\<forall>kv\<in>set [(createKey 1, Encoded \<lparr>uid_Name = ''n1'', uid_Id = 1\<rparr>)].
      \<exists>r. snd kv = Encoded r \<and> uid_Name r \<noteq> serviceLabel ?ia"
    by (simp add: lbl)
  have valid: "jsonCoerce ''n3'' = ''n3''" by (simp add: runeSize_def)
  have first: "run etcd_client (getID (newIDAllocator ''n3'')) [] =
     ([ListValuesCall ''allocatedIDs/'', ListKeysCall ''allocatedIDs/'',
       PutIfNotExistsCall ''/vnf-agent/contiv-ksr/allocatedIDs/1''
         (Encoded \<lparr>uid_Name = ''n3'', uid_Id = 1\<rparr>)],
      ((1, None), \<lparr>serviceLabel = ''n3'', allocated = True, ID = 1\<rparr>),
      [(''/vnf-agent/contiv-ksr/allocatedIDs/1'', Encoded \<lparr>uid_Name = ''n3'', uid_Id = 1\<rparr>)])"
    by (simp add: alloc_eval store_eval codec_eval)
  from getID_adopts_listed_record [where ia = ?ia and c = etcd_client and s = ?st
      and pre = "[(createKey 1, Encoded \<lparr>uid_Name = ''n1'', uid_Id = 1\<rparr>)]"
      and k = "createKey 2" and entry = "\<lparr>uid_Name = ''n2'', uid_Id = 2\<rparr>" and post = "[]"
      and ?s1.0 = ?st and l = "''n3''" and st = "[]"] na lv nm others valid first
  show ?thesis by (simp add: newIDAllocator_def allocatedIDsKeyPrefix_def)
qed

section \<open>The number of attempts\<close>

lemma writes_allocLoop:
  "n \<le> maxAttempts \<Longrightarrow>
   length (filter isWrite (fst (run c (allocLoop ia n) s))) \<le> maxAttempts + 1 - n"
proof (induction ia n arbitrary: s rule: allocLoop_induct)
  case (iteration ia n)
  have again: "length (filter isWrite cs2) \<le> maxAttempts - n"
    if "\<not> maxAttempts < Suc n" and "run c (allocLoop ia2 (Suc n)) s2 = (cs2, out)"
    for ia2 s2 cs2 out
    using iteration.IH [of ia2 s2] that by simp
  show ?case
    apply (subst run_allocLoop)
    using iteration.prems
    apply (auto simp: Let_def split: prod.splits dest!: again)
    done
qed

lemma writes_getID:
  "length (filter isWrite (fst (run c (getID ia) s))) \<le> maxAttempts + 1"
proof (cases "allocated ia")
  case True
  then show ?thesis by (simp add: getID_def)
next
  case False
  have loop: "length (filter isWrite cs) \<le> maxAttempts + 1"
    if "run c (allocLoop ia 0) s1 = (cs, out)" for s1 cs out
    using writes_allocLoop [of 0 c ia s1] that by simp
  show ?thesis
    by (auto simp: run_getID [OF False] Let_def split: prod.splits option.splits dest!: loop)
qed

text \<open>
  C3. The loop gives up with \<open>errUnableToAllocateID\<close> and the number \<open>0\<close> only when the
  counter has passed \<open>maxAttempts\<close>, and the counter is compared after the write. So
  \<open>getID\<close> issues at most \<open>maxAttempts + 1\<close> conditional writes, and on a store where
  every write is lost a fresh allocator issues all eleven of them before it gives up.
\<close>

theorem getID_eleven_writes:
  "length (filter isWrite (fst (run c (getID ia) s))) \<le> maxAttempts + 1 \<and>
   (\<lambda>(cs, (r, ia), st). (length (filter isWrite cs), r, ID ia, length st))
     (run contended_client (getID (newIDAllocator ''late'')) []) =
   (11, (0, Some errUnableToAllocateID), 11, 11)"
proof
  show "length (filter isWrite (fst (run c (getID ia) s))) \<le> maxAttempts + 1"
    by (rule writes_getID)
  show "(\<lambda>(cs, (r, ia), st). (length (filter isWrite cs), r, ID ia, length st))
     (run contended_client (getID (newIDAllocator ''late'')) []) =
   (11, (0, Some errUnableToAllocateID), 11, 11)"
    by (simp add: alloc_eval store_eval codec_eval)
qed

section \<open>The shape of the trees\<close>





section \<open>The store\<close>









section \<open>One step of a node\<close>










section \<open>Every transition of a well-run cluster keeps the invariant\<close>



























end
